theory Spec2Isabelle
  imports Main
begin

section \<open>JavaScript values and node configurations\<close>

text \<open>
  The source is \<^verbatim>\<open>src/lib/auth.js\<close>: the class \<^verbatim>\<open>Auth\<close> with the methods
  \<^verbatim>\<open>checkRSAKeys\<close>, \<^verbatim>\<open>verify\<close>, \<^verbatim>\<open>verifyKeys\<close>, \<^verbatim>\<open>verifyUser\<close> and \<^verbatim>\<open>checkUser\<close>.
  Every value the code passes around is a string or \<^verbatim>\<open>undefined\<close>; \<open>None\<close> stands for
  \<^verbatim>\<open>undefined\<close>. A value is falsy when it is \<^verbatim>\<open>undefined\<close> or the empty string.
\<close>

type_synonym jsval = "string option"

definition truthy :: "jsval \<Rightarrow> bool" where
  "truthy v = (case v of None \<Rightarrow> False | Some t \<Rightarrow> t \<noteq> [])"

text \<open>The operator \<^verbatim>\<open>a || b\<close>.\<close>

definition js_or :: "jsval \<Rightarrow> jsval \<Rightarrow> jsval" where
  "js_or a b = (if truthy a then a else b)"

text \<open>
  A node's \<^verbatim>\<open>config\<close> object: \<^verbatim>\<open>config.local\<close> and \<^verbatim>\<open>config.provided\<close>, each an object
  read and written by property name. The code mutates \<^verbatim>\<open>config.local\<close> in place; the
  model returns the updated configuration.
\<close>

record config =
  local :: "string \<Rightarrow> jsval"
  provided :: "string \<Rightarrow> jsval"

section \<open>The world: file system, database, libraries\<close>

text \<open>
  The four files the code touches, all under \<^verbatim>\<open>${process.cwd()}/config/certs\<close>.
\<close>

datatype path = AuthPrivatePem | AuthPublicPem | GitIgnore | CredentialsJson

text \<open>
  A file is missing (\<^verbatim>\<open>lstat\<close> and \<^verbatim>\<open>readFile\<close> both fail), present but unreadable
  (\<^verbatim>\<open>lstat\<close> succeeds, \<^verbatim>\<open>readFile\<close> fails), or holds a content. For
  \<^verbatim>\<open>credentials.json\<close> the content is the parsed document, an object from node ids to
  \<^verbatim>\<open>{user_key, user_secret}\<close> entries, and \<open>Unreadable\<close> also stands for a text that
  \<^verbatim>\<open>JSON.parse\<close> rejects: both end in the same \<^verbatim>\<open>catch\<close>.
\<close>

datatype 'a stored = Missing | Unreadable | Holds 'a

record user_credentials =
  user_key :: string
  user_secret :: string

text \<open>
  A document of the \<^verbatim>\<open>users\<close> collection: the object \<^verbatim>\<open>user\<close> that \<^verbatim>\<open>checkUser\<close>
  builds. Its \<open>user_secret\<close> field is where the code puts the bcrypt hash.
\<close>

record user = user_credentials +
  user_id :: string
  last_ip :: "string list"
  scope :: string
  refresh_token :: string

datatype error = FsError path | ConnectError | DeleteError | InsertError

text \<open>
  A promise that is only ever resolved (the constructor keeps the \<^verbatim>\<open>resolve\<close> function
  of each and no \<^verbatim>\<open>reject\<close>): pending, or fulfilled with a value.
\<close>

datatype 'a promise = Pending | Fulfilled 'a

text \<open>
  A call of \<^verbatim>\<open>verify\<close> in flight: the \<^verbatim>\<open>await\<close> where it stands, with the variables it
  holds there (\<^verbatim>\<open>type\<close>, \<^verbatim>\<open>id\<close>, \<^verbatim>\<open>config\<close>, then \<^verbatim>\<open>url\<close>, \<^verbatim>\<open>credentials\<close>, \<^verbatim>\<open>user_key\<close>,
  \<^verbatim>\<open>user_secret\<close>), or how it ended. \<open>AwaitReady\<close> is line 70, \<open>AwaitAuthDb\<close> line 101,
  \<open>AwaitConnect\<close> line 102, \<open>AwaitReadFile\<close> line 108, \<open>AwaitDeleteOne\<close> line 126,
  \<open>AwaitHash\<close> line 131, \<open>AwaitWriteFile\<close> line 144.
\<close>

datatype call =
    AwaitReady string string config
  | AwaitAuthDb string config
  | AwaitConnect string config jsval
  | AwaitReadFile string config jsval
  | AwaitDeleteOne string config jsval "string \<Rightarrow> user_credentials option" string string
  | AwaitHash string config jsval "string \<Rightarrow> user_credentials option" string string
  | AwaitWriteFile string config "string \<Rightarrow> user_credentials option" string string
  | Returned config
  | Thrown error config

text \<open>
  The state holds the fields of the \<^verbatim>\<open>Auth\<close> object (\<open>certPrivate\<close>, \<open>certPublic\<close>,
  \<open>ready\<close>, \<open>authDb\<close>) and the world around it. The world's faults are fields too:
  \<open>write_ok p\<close> says whether \<^verbatim>\<open>writeFile\<close> on \<open>p\<close> succeeds (the directory exists and is
  writable), \<open>connect_ok url\<close> whether \<^verbatim>\<open>mongodb.connect(url)\<close> succeeds, \<open>delete_ok\<close>
  and \<open>insert_ok\<close> whether \<^verbatim>\<open>deleteOne\<close> and \<^verbatim>\<open>insertOne\<close> do. \<open>users url\<close> is
  the \<^verbatim>\<open>users\<close> collection of the database at \<open>url\<close>, in insertion order; \<open>opened\<close>
  lists the connections opened so far (the code never closes one). \<open>keypair\<close> is what
  \<^verbatim>\<open>generateKeys()\<close> returns (private, public), \<open>tokens\<close> the sequence of tokens
  \<^verbatim>\<open>randtoken.uid(256)\<close> hands out and \<open>drawn\<close> how many were taken, \<open>bcrypt_hash\<close> the
  hash \<^verbatim>\<open>bcrypt.hash\<close> computes. \<open>calls\<close> are the calls of \<^verbatim>\<open>verify\<close> made in this
  process, in the order they were made.
\<close>

record state =
  certPrivate :: jsval
  certPublic :: jsval
  ready :: "unit promise"
  authDb :: "jsval promise"
  files :: "path \<Rightarrow> string stored"
  credentials_json :: "(string \<Rightarrow> user_credentials option) stored"
  write_ok :: "path \<Rightarrow> bool"
  connect_ok :: "jsval \<Rightarrow> bool"
  delete_ok :: bool
  insert_ok :: bool
  users :: "jsval \<Rightarrow> user list"
  opened :: "jsval list"
  keypair :: "string \<times> string"
  tokens :: "nat \<Rightarrow> string"
  drawn :: nat
  bcrypt_hash :: "string \<Rightarrow> string"
  calls :: "call list"

subsection \<open>File system\<close>

text \<open>\<^verbatim>\<open>fileExists = promisify(fs.lstat)\<close>, \<^verbatim>\<open>readFile\<close>, \<^verbatim>\<open>writeFile\<close> on the text files.\<close>

definition fileExists :: "path \<Rightarrow> state \<Rightarrow> error + unit" where
  "fileExists p s = (case files s p of Missing \<Rightarrow> Inl (FsError p) | _ \<Rightarrow> Inr ())"

definition readFile :: "path \<Rightarrow> state \<Rightarrow> error + string" where
  "readFile p s = (case files s p of Holds t \<Rightarrow> Inr t | _ \<Rightarrow> Inl (FsError p))"

definition writeFile :: "path \<Rightarrow> string \<Rightarrow> state \<Rightarrow> error + state" where
  "writeFile p t s =
     (if write_ok s p then Inr (s\<lparr>files := (files s)(p := Holds t)\<rparr>)
      else Inl (FsError p))"

text \<open>Whether \<^verbatim>\<open>readFile\<close> succeeds on a file.\<close>

definition readable :: "'a stored \<Rightarrow> bool" where
  "readable f = (case f of Holds t \<Rightarrow> True | _ \<Rightarrow> False)"

text \<open>
  \<^verbatim>\<open>try { credentials = JSON.parse(await readFile(credentials.json)) } catch (err) {}\<close>
  with \<^verbatim>\<open>credentials = {}\<close> before it.
\<close>

definition read_credentials :: "state \<Rightarrow> string \<Rightarrow> user_credentials option" where
  "read_credentials s = (case credentials_json s of Holds doc \<Rightarrow> doc | _ \<Rightarrow> Map.empty)"

text \<open>\<^verbatim>\<open>writeFile(credentials.json, JSON.stringify(credentials, null, 2))\<close>: the whole document.\<close>

definition write_credentials ::
  "(string \<Rightarrow> user_credentials option) \<Rightarrow> state \<Rightarrow> error + state" where
  "write_credentials doc s =
     (if write_ok s CredentialsJson then Inr (s\<lparr>credentials_json := Holds doc\<rparr>)
      else Inl (FsError CredentialsJson))"

subsection \<open>Database and libraries\<close>

definition connect :: "jsval \<Rightarrow> state \<Rightarrow> error + state" where
  "connect url s =
     (if connect_ok s url then Inr (s\<lparr>opened := opened s @ [url]\<rparr>) else Inl ConnectError)"

text \<open>\<^verbatim>\<open>deleteOne({ user_id: id })\<close> removes the first document with that id, if any.\<close>

fun delete_first :: "string \<Rightarrow> user list \<Rightarrow> user list" where
  "delete_first i [] = []"
| "delete_first i (u # us) = (if user_id u = i then us else u # delete_first i us)"

definition deleteOne :: "jsval \<Rightarrow> string \<Rightarrow> state \<Rightarrow> error + state" where
  "deleteOne url i s =
     (if delete_ok s then Inr (s\<lparr>users := (users s)(url := delete_first i (users s url))\<rparr>)
      else Inl DeleteError)"

definition insertOne :: "jsval \<Rightarrow> user \<Rightarrow> state \<Rightarrow> error + state" where
  "insertOne url u s =
     (if insert_ok s then Inr (s\<lparr>users := (users s)(url := users s url @ [u])\<rparr>)
      else Inl InsertError)"

text \<open>\<^verbatim>\<open>randtoken.uid(256)\<close>: the next token.\<close>

definition uid :: "state \<Rightarrow> string \<times> state" where
  "uid s = (tokens s (drawn s), s\<lparr>drawn := Suc (drawn s)\<rparr>)"

section \<open>The class Auth\<close>

text \<open>
  Each method is given twice. The functions \<open>checkRSAKeys\<close>, \<open>verifyKeys\<close>, \<open>checkUser\<close>,
  \<open>verifyUser\<close> and \<open>verify\<close> follow the source statement by statement and give what
  one call does when nothing else runs in between: it ends resolved, rejected with an
  error, or waiting on one of the two shared promises while that promise is pending.
  The function \<open>advance\<close> takes a call of \<^verbatim>\<open>verify\<close> from one \<^verbatim>\<open>await\<close> to the next, and
  \<open>run\<close> interleaves such steps of all the calls in flight, in any order: every
  \<^verbatim>\<open>await\<close> lets the other calls in. \<open>alone_is_verify\<close> below shows that the first is the
  second with one call in flight.
\<close>

text \<open>
  Outside the model: the logging call \<^verbatim>\<open>blitz.log.silly\<close>; failures of \<^verbatim>\<open>generateKeys\<close>
  and \<^verbatim>\<open>bcrypt.hash\<close>; the field \<^verbatim>\<open>this.complete\<close>, which \<^verbatim>\<open>verifyUser\<close> reads back in the
  statement after it assigns it. A node id is taken not to be the name of a member of
  \<^verbatim>\<open>Object.prototype\<close>, so that \<^verbatim>\<open>credentials[id]\<close> is truthy exactly for the ids with an
  entry in the document.
\<close>

datatype future = Ready | AuthDb

datatype outcome = Resolved | Rejected error | Waiting future

subsection \<open>checkRSAKeys\<close>

text \<open>
  The \<^verbatim>\<open>try\<close> block: \<^verbatim>\<open>lstat\<close> on the private key, then the two reads, each assigning its
  field. It returns whether it ran to its end and the state where it stopped.
\<close>

definition load_keys :: "state \<Rightarrow> bool \<times> state" where
  "load_keys s =
     (case fileExists AuthPrivatePem s of
        Inl e \<Rightarrow> (False, s)
      | Inr _ \<Rightarrow>
          (case readFile AuthPrivatePem s of
             Inl e \<Rightarrow> (False, s)
           | Inr priv \<Rightarrow>
               (let s1 = s\<lparr>certPrivate := Some priv\<rparr> in
                case readFile AuthPublicPem s1 of
                  Inl e \<Rightarrow> (False, s1)
                | Inr pub \<Rightarrow> (True, s1\<lparr>certPublic := Some pub\<rparr>))))"

text \<open>
  The \<^verbatim>\<open>catch\<close> block: generate, assign, then the three awaited writes. The two
  \<^verbatim>\<open>mkdir\<close> calls sit in \<^verbatim>\<open>try\<close> blocks with empty handlers: whether the directory is
  there shows only in whether the writes succeed, which \<open>write_ok\<close> decides. A failed
  write throws out of \<^verbatim>\<open>checkRSAKeys\<close>.
\<close>

definition generate_keys :: "state \<Rightarrow> error option \<times> state" where
  "generate_keys s =
     (let keys = keypair s;
          s1 = s\<lparr>certPrivate := Some (fst keys), certPublic := Some (snd keys)\<rparr>
      in case writeFile AuthPublicPem (snd keys) s1 of
           Inl e \<Rightarrow> (Some e, s1)
         | Inr s2 \<Rightarrow>
             (case writeFile AuthPrivatePem (fst keys) s2 of
                Inl e \<Rightarrow> (Some e, s2)
              | Inr s3 \<Rightarrow>
                  (case writeFile GitIgnore ''*.*'' s3 of
                     Inl e \<Rightarrow> (Some e, s3)
                   | Inr s4 \<Rightarrow> (None, s4))))"

text \<open>
  \<^verbatim>\<open>checkRSAKeys(resolve)\<close>: \<^verbatim>\<open>resolve()\<close> is its last statement, so \<open>ready\<close> is fulfilled
  only when no write threw. When one throws, the assignments and the writes made before it
  stay, the promise \<^verbatim>\<open>checkRSAKeys\<close> returns is rejected, and \<open>ready\<close> stays pending.
\<close>

definition checkRSAKeys :: "state \<Rightarrow> outcome \<times> state" where
  "checkRSAKeys s =
     (case load_keys s of
        (True, s1) \<Rightarrow> (Resolved, s1\<lparr>ready := Fulfilled ()\<rparr>)
      | (False, s1) \<Rightarrow>
          (case generate_keys s1 of
             (Some e, s2) \<Rightarrow> (Rejected e, s2)
           | (None, s2) \<Rightarrow> (Resolved, s2\<lparr>ready := Fulfilled ()\<rparr>)))"

text \<open>
  The constructor: both promises are created pending, and \<^verbatim>\<open>checkRSAKeys\<close> is started with
  the \<^verbatim>\<open>resolve\<close> function of \<open>ready\<close>. Nothing is attached to the promise that
  \<^verbatim>\<open>checkRSAKeys\<close> itself returns, so its rejection reaches no one. No call of \<^verbatim>\<open>verify\<close>
  has been made on the new object.
\<close>

definition new_promises :: "state \<Rightarrow> state" where
  "new_promises w =
     w\<lparr>certPrivate := None, certPublic := None, ready := Pending, authDb := Pending,
       calls := []\<rparr>"

definition constructor :: "state \<Rightarrow> state" where
  "constructor w = snd (checkRSAKeys (new_promises w))"

subsection \<open>verifyKeys\<close>

definition set_local :: "string \<Rightarrow> jsval \<Rightarrow> config \<Rightarrow> config" where
  "set_local name v config = config\<lparr>local := (local config)(name := v)\<rparr>"

definition verifyKeys :: "string \<Rightarrow> string \<Rightarrow> config \<Rightarrow> state \<Rightarrow> config" where
  "verifyKeys type id' config s =
     (if type = ''api'' \<or> type = ''auth''
      then set_local ''certPrivate'' (certPrivate s)
             (set_local ''certPublic'' (certPublic s) config)
      else config)"

subsection \<open>checkUser\<close>

text \<open>
  The \<^verbatim>\<open>else\<close> branch of \<^verbatim>\<open>checkUser\<close>: two tokens, the awaited \<^verbatim>\<open>deleteOne\<close>, the
  awaited hash, the third token, \<^verbatim>\<open>insertOne\<close>, the awaited write of the whole document,
  then the two assignments to \<^verbatim>\<open>config.local\<close>. The call of \<^verbatim>\<open>insertOne\<close> is not awaited
  and nothing is attached to the promise it returns: its effect on the collection is taken
  where the call stands, and its failure is dropped.
\<close>

definition create_user ::
  "jsval \<Rightarrow> string \<Rightarrow> (string \<Rightarrow> user_credentials option) \<Rightarrow> config \<Rightarrow> state
     \<Rightarrow> outcome \<times> config \<times> state" where
  "create_user url id' credentials config s =
     (let (key, s1) = uid s;
          (secret, s2) = uid s1
      in case deleteOne url id' s2 of
           Inl e \<Rightarrow> (Rejected e, config, s2)
         | Inr s3 \<Rightarrow>
             (let hashed = bcrypt_hash s3 secret;
                  (token, s4) = uid s3;
                  user = \<lparr>user_key = key, user_secret = hashed, user_id = id',
                          last_ip = [], scope = ''write_root'',
                          refresh_token = key @ token\<rparr>;
                  s5 = (case insertOne url user s4 of Inl e \<Rightarrow> s4 | Inr s' \<Rightarrow> s');
                  credentials' = credentials(id' \<mapsto> \<lparr>user_key = key, user_secret = secret\<rparr>)
              in case write_credentials credentials' s5 of
                   Inl e \<Rightarrow> (Rejected e, config, s5)
                 | Inr s6 \<Rightarrow>
                     (Resolved,
                      set_local ''userSecret'' (Some secret)
                        (set_local ''userKey'' (Some key) config),
                      s6)))"

text \<open>
  \<^verbatim>\<open>checkUser(id, config)\<close>, from its first statement \<^verbatim>\<open>await this.authDb\<close>: while the
  promise is pending the call waits there, having done nothing.
\<close>

definition checkUser :: "string \<Rightarrow> config \<Rightarrow> state \<Rightarrow> outcome \<times> config \<times> state" where
  "checkUser id' config s =
     (case authDb s of
        Pending \<Rightarrow> (Waiting AuthDb, config, s)
      | Fulfilled url \<Rightarrow>
          (case connect url s of
             Inl e \<Rightarrow> (Rejected e, config, s)
           | Inr s1 \<Rightarrow>
               (let credentials = read_credentials s1
                in case credentials id' of
                     Some c \<Rightarrow>
                       (Resolved,
                        set_local ''userSecret'' (Some (user_secret c))
                          (set_local ''userKey'' (Some (user_key c)) config),
                        s1)
                   | None \<Rightarrow> create_user url id' credentials config s1)))"

subsection \<open>verifyUser and verify\<close>

text \<open>
  \<^verbatim>\<open>this.resolveDb(v)\<close>: the \<^verbatim>\<open>resolve\<close> function of \<open>authDb\<close>. Resolving a promise
  that is already fulfilled does nothing.
\<close>

definition resolveDb :: "jsval \<Rightarrow> state \<Rightarrow> state" where
  "resolveDb v s = (case authDb s of Pending \<Rightarrow> s\<lparr>authDb := Fulfilled v\<rparr> | Fulfilled _ \<Rightarrow> s)"

text \<open>
  \<^verbatim>\<open>verifyUser\<close> starts \<^verbatim>\<open>checkUser\<close>, which stops at its first \<^verbatim>\<open>await\<close>; then, for
  \<^verbatim>\<open>auth_core\<close>, it resolves \<open>authDb\<close>; then it awaits the call it started. So the body
  of \<^verbatim>\<open>checkUser\<close> runs after \<^verbatim>\<open>resolveDb\<close>.
\<close>

definition verifyUser ::
  "string \<Rightarrow> string \<Rightarrow> config \<Rightarrow> state \<Rightarrow> outcome \<times> config \<times> state" where
  "verifyUser type id' config s =
     (if type = ''core'' \<and> \<not> truthy (provided config ''userSecret'')
      then checkUser id' config
             (if id' = ''auth_core''
              then resolveDb (js_or (provided config ''mongoUrl'') (local config ''mongoUrl'')) s
              else s)
      else (Resolved, config, s))"

definition verify ::
  "string \<Rightarrow> string \<Rightarrow> config \<Rightarrow> state \<Rightarrow> outcome \<times> config \<times> state" where
  "verify type id' config s =
     (case ready s of
        Pending \<Rightarrow> (Waiting Ready, config, s)
      | Fulfilled _ \<Rightarrow> verifyUser type id' (verifyKeys type id' config s) s)"

subsection \<open>One await at a time\<close>

text \<open>
  \<open>advance k s\<close>: the \<^verbatim>\<open>await\<close> at which the call \<open>k\<close> stands completes in state \<open>s\<close>, and
  the call runs on to its next \<^verbatim>\<open>await\<close> or to its end. A call that stands at a pending
  promise stays where it is. The effect of an awaited operation on the world is taken when
  it completes; \<^verbatim>\<open>insertOne\<close>, which is not awaited, is taken where it is called.
\<close>

fun advance :: "call \<Rightarrow> state \<Rightarrow> call \<times> state" where
  "advance (AwaitReady type id' config) s =
     (case ready s of
        Pending \<Rightarrow> (AwaitReady type id' config, s)
      | Fulfilled _ \<Rightarrow>
          (let config1 = verifyKeys type id' config s
           in if type = ''core'' \<and> \<not> truthy (provided config1 ''userSecret'')
              then (AwaitAuthDb id' config1,
                    if id' = ''auth_core''
                    then resolveDb (js_or (provided config1 ''mongoUrl'')
                                          (local config1 ''mongoUrl'')) s
                    else s)
              else (Returned config1, s)))"
| "advance (AwaitAuthDb id' config) s =
     (case authDb s of
        Pending \<Rightarrow> (AwaitAuthDb id' config, s)
      | Fulfilled url \<Rightarrow> (AwaitConnect id' config url, s))"
| "advance (AwaitConnect id' config url) s =
     (case connect url s of
        Inl e \<Rightarrow> (Thrown e config, s)
      | Inr s1 \<Rightarrow> (AwaitReadFile id' config url, s1))"
| "advance (AwaitReadFile id' config url) s =
     (let credentials = read_credentials s
      in case credentials id' of
           Some c \<Rightarrow>
             (Returned (set_local ''userSecret'' (Some (user_secret c))
                         (set_local ''userKey'' (Some (user_key c)) config)), s)
         | None \<Rightarrow>
             (let (key, s1) = uid s;
                  (secret, s2) = uid s1
              in (AwaitDeleteOne id' config url credentials key secret, s2)))"
| "advance (AwaitDeleteOne id' config url credentials key secret) s =
     (case deleteOne url id' s of
        Inl e \<Rightarrow> (Thrown e config, s)
      | Inr s1 \<Rightarrow> (AwaitHash id' config url credentials key secret, s1))"
| "advance (AwaitHash id' config url credentials key secret) s =
     (let hashed = bcrypt_hash s secret;
          (token, s1) = uid s;
          user = \<lparr>user_key = key, user_secret = hashed, user_id = id',
                  last_ip = [], scope = ''write_root'',
                  refresh_token = key @ token\<rparr>;
          s2 = (case insertOne url user s1 of Inl e \<Rightarrow> s1 | Inr s' \<Rightarrow> s')
      in (AwaitWriteFile id' config credentials key secret, s2))"
| "advance (AwaitWriteFile id' config credentials key secret) s =
     (case write_credentials
             (credentials(id' \<mapsto> \<lparr>user_key = key, user_secret = secret\<rparr>)) s of
        Inl e \<Rightarrow> (Thrown e config, s)
      | Inr s1 \<Rightarrow>
          (Returned (set_local ''userSecret'' (Some secret)
                      (set_local ''userKey'' (Some key) config)), s1))"
| "advance (Returned config) s = (Returned config, s)"
| "advance (Thrown e config) s = (Thrown e config, s)"

text \<open>A call with nothing else in flight: its seven awaits complete one after the other.\<close>

definition alone :: "call \<Rightarrow> state \<Rightarrow> call \<times> state" where
  "alone k s = ((\<lambda>(k', s'). advance k' s') ^^ 7) (k, s)"

text \<open>How a call stands after \<open>verify\<close> or \<open>checkUser\<close> gave an outcome.\<close>

fun ended :: "string \<Rightarrow> string \<Rightarrow> outcome \<times> config \<times> state \<Rightarrow> call \<times> state" where
  "ended type id' (Resolved, config, s) = (Returned config, s)"
| "ended type id' (Rejected e, config, s) = (Thrown e config, s)"
| "ended type id' (Waiting Ready, config, s) = (AwaitReady type id' config, s)"
| "ended type id' (Waiting AuthDb, config, s) = (AwaitAuthDb id' config, s)"

subsection \<open>Calls in one process\<close>

text \<open>
  What happens in a process after the constructor: the loader calls \<^verbatim>\<open>verify\<close>, which
  runs to its first \<^verbatim>\<open>await\<close>, or the \<^verbatim>\<open>await\<close> of one of the calls in flight completes.
  \<open>run\<close> gives the state after a sequence of such events, in whatever order they come.
\<close>

datatype event = Verify string string config | Step nat

fun perform :: "event \<Rightarrow> state \<Rightarrow> state" where
  "perform (Verify type id' config) s = s\<lparr>calls := calls s @ [AwaitReady type id' config]\<rparr>"
| "perform (Step n) s =
     (if n < length (calls s)
      then (case advance (calls s ! n) s of (k, s1) \<Rightarrow> s1\<lparr>calls := (calls s1)[n := k]\<rparr>)
      else s)"

fun run :: "event list \<Rightarrow> state \<Rightarrow> state" where
  "run [] s = s"
| "run (e # es) s = run es (perform e s)"

text \<open>
  Across runs of the process: the events of one run, a restart (the constructor runs
  again on the world as the last run left it), or the operator deleting the cache file.
\<close>

datatype incident = Events "event list" | Restart | DeleteCache

fun happen :: "incident \<Rightarrow> state \<Rightarrow> state" where
  "happen (Events es) s = run es s"
| "happen Restart s = constructor s"
| "happen DeleteCache s = s\<lparr>credentials_json := Missing\<rparr>"

fun history :: "incident list \<Rightarrow> state \<Rightarrow> state" where
  "history [] s = s"
| "history (x # xs) s = history xs (happen x s)"

section \<open>Example worlds\<close>

text \<open>
  A fresh environment: no certificate directory, an empty database reachable at one url,
  every write permitted. The other worlds differ from it in one respect each.
\<close>

definition fresh_world :: state where
  "fresh_world =
     \<lparr>certPrivate = None, certPublic = None, ready = Pending, authDb = Pending,
      files = (\<lambda>p. Missing), credentials_json = Missing,
      write_ok = (\<lambda>p. True), connect_ok = (\<lambda>url. url = Some ''mongodb://auth''),
      delete_ok = True, insert_ok = True,
      users = (\<lambda>url. []), opened = [],
      keypair = (''PRIVATE KEY'', ''PUBLIC KEY''),
      tokens = (\<lambda>n. replicate (Suc n) CHR ''k''), drawn = 0,
      bcrypt_hash = (\<lambda>t. ''$2a$10$'' @ rev t), calls = []\<rparr>"

text \<open>A node configuration with the given \<^verbatim>\<open>provided.userSecret\<close> and \<^verbatim>\<open>provided.mongoUrl\<close>.\<close>

definition node_config :: "jsval \<Rightarrow> jsval \<Rightarrow> config" where
  "node_config secret url =
     \<lparr>local = (\<lambda>name. None),
      provided = ((\<lambda>name. None)(''userSecret'' := secret, ''mongoUrl'' := url))\<rparr>"

text \<open>The database accepts connections and deletes, and refuses every insert.\<close>

definition insert_failing_world :: state where
  "insert_failing_world = fresh_world\<lparr>insert_ok := False\<rparr>"

text \<open>
  A restart with the credentials of \<^verbatim>\<open>auth_core\<close> in the cache file and the database down.
\<close>

definition database_down_world :: state where
  "database_down_world =
     fresh_world
       \<lparr>credentials_json :=
          Holds [''auth_core'' \<mapsto> \<lparr>user_key = ''KEY'', user_secret = ''SECRET''\<rparr>],
        connect_ok := (\<lambda>url. False)\<rparr>"

text \<open>No key files, and the certificate directory cannot be written.\<close>

definition read_only_world :: state where
  "read_only_world = fresh_world\<lparr>write_ok := (\<lambda>p. False)\<rparr>"

text \<open>The keys can be written, the cache file cannot.\<close>

definition cache_read_only_world :: state where
  "cache_read_only_world = fresh_world\<lparr>write_ok := (\<lambda>p. p \<noteq> CredentialsJson)\<rparr>"

text \<open>
  The configuration of \<^verbatim>\<open>auth_core\<close> with the database url provided, of a node without
  one, and of \<^verbatim>\<open>auth_core\<close> with the url only in its local defaults.
\<close>

definition auth_core_config :: config where
  "auth_core_config = node_config None (Some ''mongodb://auth'')"

definition plain_config :: config where
  "plain_config = node_config None None"

definition local_url_config :: config where
  "local_url_config =
     \<lparr>local = ((\<lambda>name. None)(''mongoUrl'' := Some ''mongodb://auth'')),
      provided = (\<lambda>name. None)\<rparr>"

text \<open>\<^verbatim>\<open>auth_core\<close> with a provided url and a different local default; with a provided secret.\<close>

definition both_urls_config :: config where
  "both_urls_config =
     \<lparr>local = ((\<lambda>name. None)(''mongoUrl'' := Some ''mongodb://default'')),
      provided = ((\<lambda>name. None)(''mongoUrl'' := Some ''mongodb://auth''))\<rparr>"

definition secret_config :: config where
  "secret_config = node_config (Some ''s3cret'') (Some ''mongodb://auth'')"

text \<open>
  The start-up of two core nodes: the loader calls \<^verbatim>\<open>verify\<close> for \<^verbatim>\<open>auth_core\<close> and for
  \<^verbatim>\<open>jobs_core\<close>, and the awaits of the two calls complete in turn (call 0, call 1, call 0,
  ...) until both have ended. Then a second call for \<^verbatim>\<open>auth_core\<close>, run to its end.
\<close>

definition two_nodes_start :: "event list" where
  "two_nodes_start =
     [Verify ''core'' ''auth_core'' auth_core_config, Verify ''core'' ''jobs_core'' plain_config,
      Step 0, Step 1, Step 0, Step 1, Step 0, Step 1, Step 0, Step 1,
      Step 0, Step 1, Step 0, Step 1, Step 0, Step 1]"


text \<open>
  The process state after the constructor ran in the fresh world and \<^verbatim>\<open>auth_core\<close> was
  bootstrapped.
\<close>

definition bootstrapped :: state where
  "bootstrapped = snd (snd (verify ''core'' ''auth_core'' auth_core_config (constructor fresh_world)))"



text \<open>
  A call for \<^verbatim>\<open>jobs_core\<close> (call 0) taken up to its \<^verbatim>\<open>deleteOne\<close>.
\<close>

definition recreate :: "event list" where
  "recreate = [Verify ''core'' ''jobs_core'' plain_config, Step 0, Step 0, Step 0, Step 0]"

text \<open>
  A restart after the cache file was deleted, followed by the start-up of the two nodes.
\<close>

definition second_run :: "incident list" where
  "second_run = [DeleteCache, Restart, Events two_nodes_start]"

section \<open>Predicates on states\<close>

text \<open>The number of records of a node id in a collection.\<close>

definition count_id :: "string \<Rightarrow> user list \<Rightarrow> nat" where
  "count_id i us = length (filter (\<lambda>u. user_id u = i) us)"

text \<open>The calls for a node id that have not ended, and their number.\<close>

fun in_flight :: "string \<Rightarrow> call \<Rightarrow> bool" where
  "in_flight i (AwaitReady type id' config) = (id' = i)"
| "in_flight i (AwaitAuthDb id' config) = (id' = i)"
| "in_flight i (AwaitConnect id' config url) = (id' = i)"
| "in_flight i (AwaitReadFile id' config url) = (id' = i)"
| "in_flight i (AwaitDeleteOne id' config url credentials key secret) = (id' = i)"
| "in_flight i (AwaitHash id' config url credentials key secret) = (id' = i)"
| "in_flight i (AwaitWriteFile id' config credentials key secret) = (id' = i)"
| "in_flight i (Returned config) = False"
| "in_flight i (Thrown e config) = False"

definition inflight :: "string \<Rightarrow> state \<Rightarrow> nat" where
  "inflight i s = length (filter (in_flight i) (calls s))"

text \<open>
  The calls for a node id that have deleted its record at a url and have not yet called
  \<^verbatim>\<open>insertOne\<close>, and their number.
\<close>

fun inserting :: "string \<Rightarrow> jsval \<Rightarrow> call \<Rightarrow> bool" where
  "inserting i u (AwaitHash id' config url credentials key secret) = (id' = i \<and> url = u)"
| "inserting i u k = False"

definition deleted :: "string \<Rightarrow> jsval \<Rightarrow> state \<Rightarrow> nat" where
  "deleted i u s = length (filter (inserting i u) (calls s))"

text \<open>A call for a node id stands at its \<^verbatim>\<open>deleteOne\<close> on the collection at a url.\<close>

fun deleting :: "string \<Rightarrow> jsval \<Rightarrow> call \<Rightarrow> bool" where
  "deleting i u (AwaitDeleteOne id' config url credentials key secret) = (id' = i \<and> url = u)"
| "deleting i u k = False"

text \<open>
  The constraint of the loader on a node id: along the events, at most one call for the id
  is in flight at any time; across runs, moreover, the process is not restarted while a
  call for the id is in flight.
\<close>

fun one_at_a_time :: "string \<Rightarrow> event list \<Rightarrow> state \<Rightarrow> bool" where
  "one_at_a_time i [] s = (inflight i s \<le> 1)"
| "one_at_a_time i (e # es) s = (inflight i s \<le> 1 \<and> one_at_a_time i es (perform e s))"

fun exclusive :: "string \<Rightarrow> incident list \<Rightarrow> state \<Rightarrow> bool" where
  "exclusive i [] s = (inflight i s \<le> 1)"
| "exclusive i (Events es # h) s = (one_at_a_time i es s \<and> exclusive i h (run es s))"
| "exclusive i (Restart # h) s = (inflight i s = 0 \<and> exclusive i h (constructor s))"
| "exclusive i (DeleteCache # h) s = exclusive i h (s\<lparr>credentials_json := Missing\<rparr>)"







section \<open>Facts about the model\<close>

subsection \<open>What a call leaves alone, and one call with nothing else in flight\<close>

lemmas call_defs = verify_def verifyUser_def verifyKeys_def checkUser_def create_user_def
  connect_def deleteOne_def insertOne_def write_credentials_def uid_def resolveDb_def
  set_local_def read_credentials_def

lemmas key_defs = constructor_def new_promises_def checkRSAKeys_def load_keys_def generate_keys_def
  fileExists_def readFile_def writeFile_def

lemmas world_defs = cache_read_only_world_def fresh_world_def node_config_def insert_failing_world_def
  database_down_world_def read_only_world_def
  auth_core_config_def plain_config_def local_url_config_def
  both_urls_config_def secret_config_def

lemmas io_defs = connect_def deleteOne_def insertOne_def write_credentials_def uid_def
  resolveDb_def read_credentials_def

lemma checkUser_frame:
  "certPrivate (snd (snd (checkUser i c s))) = certPrivate s \<and>
   certPublic (snd (snd (checkUser i c s))) = certPublic s \<and>
   ready (snd (snd (checkUser i c s))) = ready s \<and>
   authDb (snd (snd (checkUser i c s))) = authDb s \<and>
   files (snd (snd (checkUser i c s))) = files s \<and>
   write_ok (snd (snd (checkUser i c s))) = write_ok s \<and>
   connect_ok (snd (snd (checkUser i c s))) = connect_ok s \<and>
   delete_ok (snd (snd (checkUser i c s))) = delete_ok s \<and>
   insert_ok (snd (snd (checkUser i c s))) = insert_ok s \<and>
   calls (snd (snd (checkUser i c s))) = calls s"
  by (simp add: call_defs Let_def split: promise.splits stored.splits option.splits)

lemma resolveDb_frame:
  "certPrivate (resolveDb v s) = certPrivate s \<and>
   certPublic (resolveDb v s) = certPublic s \<and>
   ready (resolveDb v s) = ready s \<and>
   files (resolveDb v s) = files s \<and>
   write_ok (resolveDb v s) = write_ok s \<and>
   connect_ok (resolveDb v s) = connect_ok s \<and>
   delete_ok (resolveDb v s) = delete_ok s \<and>
   insert_ok (resolveDb v s) = insert_ok s \<and>
   users (resolveDb v s) = users s \<and>
   opened (resolveDb v s) = opened s \<and>
   credentials_json (resolveDb v s) = credentials_json s \<and>
   drawn (resolveDb v s) = drawn s \<and>
   calls (resolveDb v s) = calls s"
  by (simp add: resolveDb_def split: promise.splits)

lemma advance_frame:
  "certPrivate (snd (advance k s)) = certPrivate s \<and>
   certPublic (snd (advance k s)) = certPublic s \<and>
   ready (snd (advance k s)) = ready s \<and>
   files (snd (advance k s)) = files s \<and>
   write_ok (snd (advance k s)) = write_ok s \<and>
   connect_ok (snd (advance k s)) = connect_ok s \<and>
   delete_ok (snd (advance k s)) = delete_ok s \<and>
   insert_ok (snd (advance k s)) = insert_ok s \<and>
   calls (snd (advance k s)) = calls s"
  by (cases k)
     (simp_all add: io_defs Let_def split: promise.splits stored.splits option.splits)

lemma perform_frame:
  "certPrivate (perform e s) = certPrivate s \<and>
   certPublic (perform e s) = certPublic s \<and>
   ready (perform e s) = ready s \<and>
   files (perform e s) = files s \<and>
   write_ok (perform e s) = write_ok s \<and>
   connect_ok (perform e s) = connect_ok s \<and>
   delete_ok (perform e s) = delete_ok s \<and>
   insert_ok (perform e s) = insert_ok s"
proof (cases e)
  case (Verify t i c)
  then show ?thesis by simp
next
  case (Step n)
  obtain k s1 where a: "advance (calls s ! n) s = (k, s1)"
    by (cases "advance (calls s ! n) s")
  from advance_frame [of "calls s ! n" s] a Step show ?thesis by simp
qed

lemma run_frame:
  "certPrivate (run es s) = certPrivate s \<and>
   certPublic (run es s) = certPublic s \<and>
   ready (run es s) = ready s \<and>
   files (run es s) = files s \<and>
   write_ok (run es s) = write_ok s \<and>
   connect_ok (run es s) = connect_ok s \<and>
   delete_ok (run es s) = delete_ok s \<and>
   insert_ok (run es s) = insert_ok s"
  by (induction es arbitrary: s) (simp_all add: perform_frame)

text \<open>The calls after a step.\<close>

lemma perform_Step:
  "n < length (calls s) \<Longrightarrow>
     perform (Step n) s = (snd (advance (calls s ! n) s))\<lparr>calls := (calls s)[n := fst (advance (calls s ! n) s)]\<rparr>"
  using advance_frame [of "calls s ! n" s]
  by (cases "advance (calls s ! n) s") simp

lemma perform_Step_beyond: "\<not> n < length (calls s) \<Longrightarrow> perform (Step n) s = s"
  by simp

declare perform.simps(2) [simp del]

text \<open>One call and nothing else in flight.\<close>

lemma six_steps_checkUser:
  "((\<lambda>(k', s'). advance k' s') ^^ 6) (AwaitAuthDb i c, s) = ended t i (checkUser i c s)"
  by (simp add: eval_nat_numeral call_defs Let_def
      split: promise.splits stored.splits option.splits prod.splits)

lemma alone_is_checkUser:
  "alone (AwaitAuthDb i c) s = ended t i (checkUser i c s)"
  by (simp add: alone_def eval_nat_numeral call_defs Let_def
      split: promise.splits stored.splits option.splits prod.splits)

lemma alone_is_verify:
  "alone (AwaitReady t i c) s = ended t i (verify t i c s)"
proof (cases "ready s")
  case Pending
  then show ?thesis by (simp add: alone_def eval_nat_numeral verify_def)
next
  case (Fulfilled u)
  show ?thesis
  proof (cases "t = ''core'' \<and> \<not> truthy (provided c ''userSecret'')")
    case False
    with Fulfilled show ?thesis
      by (auto simp: alone_def eval_nat_numeral verify_def verifyUser_def verifyKeys_def set_local_def)
  next
    case True
    have "alone (AwaitReady t i c) s =
        ((\<lambda>(k', s'). advance k' s') ^^ 6) (advance (AwaitReady t i c) s)"
      unfolding alone_def by (simp add: eval_nat_numeral funpow_swap1)
    also have "advance (AwaitReady t i c) s =
        (AwaitAuthDb i c,
         if i = ''auth_core''
         then resolveDb (js_or (provided c ''mongoUrl'') (local c ''mongoUrl'')) s else s)"
      using True Fulfilled by (simp add: verifyKeys_def)
    finally show ?thesis
      using True Fulfilled
      by (simp add: six_steps_checkUser verify_def verifyUser_def verifyKeys_def)
  qed
qed

subsection \<open>Counting in lists\<close>

lemma filter_update_same:
  "n < length xs \<Longrightarrow> \<not> P (xs ! n) \<Longrightarrow> \<not> P y \<Longrightarrow> filter P (xs[n := y]) = filter P xs"
proof (induction xs arbitrary: n)
  case Nil
  then show ?case by simp
next
  case (Cons x xs)
  then show ?case by (cases n) auto
qed

lemma count_single:
  "n < length xs \<Longrightarrow> (\<And>m. m < length xs \<Longrightarrow> m \<noteq> n \<Longrightarrow> \<not> P (xs ! m)) \<Longrightarrow>
     length (filter P xs) = (if P (xs ! n) then 1 else 0)"
proof (induction xs arbitrary: n)
  case Nil
  then show ?case by simp
next
  case (Cons x xs)
  show ?case
  proof (cases n)
    case 0
    have "\<not> P (xs ! m)" if "m < length xs" for m
      using Cons.prems(2) [of "Suc m"] that 0 by simp
    then have "filter P xs = []"
      by (auto simp: filter_empty_conv in_set_conv_nth)
    with 0 show ?thesis by simp
  next
    case (Suc n')
    have a: "\<not> P x" using Cons.prems(2) [of 0] Suc by simp
    have "length (filter P xs) = (if P (xs ! n') then 1 else 0)"
    proof (rule Cons.IH)
      show "n' < length xs" using Cons.prems(1) Suc by simp
      fix m assume "m < length xs" "m \<noteq> n'"
      then show "\<not> P (xs ! m)" using Cons.prems(2) [of "Suc m"] Suc by simp
    qed
    with a Suc show ?thesis by simp
  qed
qed

lemma only_one:
  "length (filter Q xs) \<le> 1 \<Longrightarrow> n < length xs \<Longrightarrow> Q (xs ! n) \<Longrightarrow>
     m < length xs \<Longrightarrow> m \<noteq> n \<Longrightarrow> \<not> Q (xs ! m)"
proof (induction xs arbitrary: n m)
  case Nil
  then show ?case by simp
next
  case (Cons x xs)
  show ?case
  proof (cases n)
    case 0
    then have qx: "Q x" using Cons.prems(3) by simp
    then have "filter Q xs = []" using Cons.prems(1) by simp
    moreover obtain m' where "m = Suc m'" using Cons.prems(5) 0 by (cases m) auto
    ultimately show ?thesis using Cons.prems(4)
      by (auto simp: filter_empty_conv)
  next
    case (Suc n')
    then have qn: "Q (xs ! n')" "n' < length xs" using Cons.prems by simp_all
    then have "filter Q xs \<noteq> []"
      by (auto simp: filter_empty_conv)
    then have nx: "\<not> Q x" and le: "length (filter Q xs) \<le> 1"
      using Cons.prems(1) by (auto split: if_splits simp: Suc_le_eq)
    show ?thesis
    proof (cases m)
      case 0
      then show ?thesis using nx by simp
    next
      case (Suc m')
      then show ?thesis
        using Cons.IH [OF le qn(2) qn(1), of m'] Cons.prems(4,5) \<open>n = Suc n'\<close> by simp
    qed
  qed
qed

text \<open>With at most one Q in the list, at position n, and P only among the Q.\<close>

lemma count_at_only:
  assumes "length (filter Q xs) \<le> 1" and "n < length xs" and "Q (xs ! n)"
    and "\<And>x. P x \<Longrightarrow> Q x"
  shows "length (filter P xs) = (if P (xs ! n) then 1 else 0)"
    and "length (filter P (xs[n := y])) = (if P y then 1 else 0)"
proof -
  have others: "\<not> P (xs ! m)" if "m < length xs" "m \<noteq> n" for m
    using only_one [OF assms(1,2,3) that] assms(4) by blast
  show "length (filter P xs) = (if P (xs ! n) then 1 else 0)"
    using assms(2) others by (rule count_single)
  have "length (filter P (xs[n := y])) = (if P ((xs[n := y]) ! n) then 1 else 0)"
  proof (rule count_single)
    show "n < length (xs[n := y])" using assms(2) by simp
    fix m assume "m < length (xs[n := y])" "m \<noteq> n"
    then show "\<not> P ((xs[n := y]) ! m)" using others by simp
  qed
  then show "length (filter P (xs[n := y])) = (if P y then 1 else 0)"
    using assms(2) by simp
qed

subsection \<open>Records per node id\<close>

lemma count_id_delete_first:
  "count_id i (delete_first j us) = (if i = j then count_id i us - 1 else count_id i us)"
  by (induction us) (auto simp: count_id_def)

lemma count_id_append: "count_id i (us @ vs) = count_id i us + count_id i vs"
  by (simp add: count_id_def)

lemma count_id_Nil: "count_id i [] = 0"
  by (simp add: count_id_def)

lemma count_id_single: "count_id i [u] = (if user_id u = i then 1 else 0)"
  by (simp add: count_id_def)

lemmas count_id_simps = count_id_delete_first count_id_append count_id_Nil count_id_single

lemma inserting_in_flight: "inserting i u k \<Longrightarrow> in_flight i k"
  by (cases k) simp_all

text \<open>One step of one call, seen from a node id.\<close>

lemma advance_other:
  assumes "\<not> in_flight i k"
  shows "\<not> in_flight i (fst (advance k s)) \<and>
         count_id i (users (snd (advance k s)) url) = count_id i (users s url)"
  using assms
  by (cases k)
     (auto simp: io_defs count_id_simps Let_def
           split: promise.splits stored.splits option.splits prod.splits)

lemma advance_in_flight: "in_flight i (fst (advance k s)) \<Longrightarrow> in_flight i k"
  by (cases k)
     (auto simp: io_defs Let_def
           split: promise.splits stored.splits option.splits prod.splits if_splits sum.splits)

lemma advance_at_most_one:
  assumes "count_id i (users s url) + (if inserting i url k then 1 else 0) \<le> 1"
  shows "count_id i (users (snd (advance k s)) url) +
           (if inserting i url (fst (advance k s)) then 1 else 0) \<le> 1"
  using assms
  by (cases k)
     (auto simp: io_defs count_id_simps Let_def
           split: promise.splits stored.splits option.splits prod.splits if_splits)

lemma advance_exactly_one:
  assumes "insert_ok s"
    and "count_id i (users s url) + (if inserting i url k then 1 else 0) = 1"
  shows "count_id i (users (snd (advance k s)) url) +
           (if inserting i url (fst (advance k s)) then 1 else 0) = 1"
  using assms
  by (cases k)
     (auto simp: io_defs count_id_simps Let_def
           split: promise.splits stored.splits option.splits prod.splits if_splits)

text \<open>One event, seen from a node id with at most one call in flight.\<close>

lemma perform_counts:
  assumes "inflight i s \<le> 1"
  shows "count_id i (users s url) + deleted i url s \<le> 1 \<Longrightarrow>
           count_id i (users (perform e s) url) + deleted i url (perform e s) \<le> 1"
    and "insert_ok s \<Longrightarrow> count_id i (users s url) + deleted i url s = 1 \<Longrightarrow>
           count_id i (users (perform e s) url) + deleted i url (perform e s) = 1"
proof -
  have both:
    "(count_id i (users s url) + deleted i url s \<le> 1 \<longrightarrow>
        count_id i (users (perform e s) url) + deleted i url (perform e s) \<le> 1) \<and>
     (insert_ok s \<and> count_id i (users s url) + deleted i url s = 1 \<longrightarrow>
        count_id i (users (perform e s) url) + deleted i url (perform e s) = 1)"
  proof (cases e)
    case (Verify t j c)
    then show ?thesis by (simp add: deleted_def)
  next
    case (Step n)
    show ?thesis
    proof (cases "n < length (calls s)")
      case False
      with Step show ?thesis by (simp add: perform_Step_beyond)
    next
      case True
      let ?k = "calls s ! n"
      let ?k' = "fst (advance ?k s)"
      let ?s' = "snd (advance ?k s)"
      have ps: "perform e s = ?s'\<lparr>calls := (calls s)[n := ?k']\<rparr>"
        unfolding Step by (rule perform_Step [OF True])
      have p: "users (perform e s) = users ?s'" "calls (perform e s) = (calls s)[n := ?k']"
        by (simp_all add: ps)
      show ?thesis
      proof (cases "in_flight i ?k")
        case False
        from advance_other [OF False, of s url]
        have a: "\<not> in_flight i ?k'" "count_id i (users ?s' url) = count_id i (users s url)"
          by simp_all
        have "\<not> inserting i url ?k" "\<not> inserting i url ?k'"
          using False a(1) inserting_in_flight by blast+
        then have "deleted i url (perform e s) = deleted i url s"
          using True by (simp add: deleted_def p(2) filter_update_same)
        then show ?thesis by (simp add: p(1) a(2))
      next
        case fl: True
        have q: "length (filter (in_flight i) (calls s)) \<le> 1"
          using assms by (simp add: inflight_def)
        have d: "deleted i url s = (if inserting i url ?k then 1 else 0)"
          "deleted i url (perform e s) = (if inserting i url ?k' then 1 else 0)"
          unfolding deleted_def p(2)
          using count_at_only [OF q True fl, of "inserting i url"] inserting_in_flight
          by blast+
        show ?thesis
          unfolding d p(1)
          using advance_at_most_one [of i s url ?k] advance_exactly_one [of s i url ?k]
          by blast
      qed
    qed
  qed
  show "count_id i (users s url) + deleted i url s \<le> 1 \<Longrightarrow>
           count_id i (users (perform e s) url) + deleted i url (perform e s) \<le> 1"
    using both by blast
  show "insert_ok s \<Longrightarrow> count_id i (users s url) + deleted i url s = 1 \<Longrightarrow>
           count_id i (users (perform e s) url) + deleted i url (perform e s) = 1"
    using both by blast
qed

lemma run_counts:
  "one_at_a_time i es s \<Longrightarrow>
     (count_id i (users s url) + deleted i url s \<le> 1 \<longrightarrow>
        count_id i (users (run es s) url) + deleted i url (run es s) \<le> 1) \<and>
     (insert_ok s \<and> count_id i (users s url) + deleted i url s = 1 \<longrightarrow>
        count_id i (users (run es s) url) + deleted i url (run es s) = 1)"
proof (induction es arbitrary: s)
  case Nil
  then show ?case by simp
next
  case (Cons e es)
  from Cons.prems have one: "inflight i s \<le> 1" and rest: "one_at_a_time i es (perform e s)"
    by simp_all
  have ok: "insert_ok (perform e s) = insert_ok s"
    by (simp add: perform_frame)
  from Cons.IH [OF rest] perform_counts [OF one, of url e] ok
  show ?case by auto
qed

lemma deleted_le_inflight: "deleted i url s \<le> inflight i s"
proof -
  have "length (filter (inserting i url) xs) \<le> length (filter (in_flight i) xs)" for xs
    by (induction xs) (auto dest: inserting_in_flight)
  then show ?thesis by (simp add: deleted_def inflight_def)
qed

lemma constructor_frame:
  "users (constructor w) = users w \<and> insert_ok (constructor w) = insert_ok w \<and>
   delete_ok (constructor w) = delete_ok w \<and> connect_ok (constructor w) = connect_ok w \<and>
   credentials_json (constructor w) = credentials_json w \<and> opened (constructor w) = opened w \<and>
   drawn (constructor w) = drawn w \<and> calls (constructor w) = []"
  by (simp add: key_defs Let_def split: stored.splits)

lemma history_counts:
  "exclusive i h s \<Longrightarrow>
     (count_id i (users s url) + deleted i url s \<le> 1 \<longrightarrow>
        count_id i (users (history h s) url) + deleted i url (history h s) \<le> 1) \<and>
     (insert_ok s \<and> count_id i (users s url) + deleted i url s = 1 \<longrightarrow>
        count_id i (users (history h s) url) + deleted i url (history h s) = 1)"
proof (induction h arbitrary: s)
  case Nil
  then show ?case by simp
next
  case (Cons x h)
  show ?case
  proof (cases x)
    case (Events es)
    with Cons.prems have a: "one_at_a_time i es s" and b: "exclusive i h (run es s)"
      by simp_all
    have ok: "insert_ok (run es s) = insert_ok s" by (simp add: run_frame)
    from Cons.IH [OF b] run_counts [OF a, of url] ok Events show ?thesis by auto
  next
    case Restart
    with Cons.prems have a: "inflight i s = 0" and b: "exclusive i h (constructor s)"
      by simp_all
    have d: "deleted i url s = 0"
      using deleted_le_inflight [of i url s] a by simp
    have d': "deleted i url (constructor s) = 0"
      by (simp add: deleted_def constructor_frame)
    from Cons.IH [OF b] d d' Restart show ?thesis by (simp add: constructor_frame)
  next
    case DeleteCache
    with Cons.prems have b: "exclusive i h (s\<lparr>credentials_json := Missing\<rparr>)"
      by simp
    from Cons.IH [OF b] DeleteCache show ?thesis by (simp add: deleted_def)
  qed
qed

lemma step_delete_counts:
  assumes "inflight i s \<le> 1" and "count_id i (users s url) + deleted i url s \<le> 1"
    and "n < length (calls s)" and "deleting i url (calls s ! n)" and "delete_ok s"
  shows "count_id i (users (perform (Step n) s) url) + deleted i url (perform (Step n) s) = 1"
proof -
  let ?k = "calls s ! n"
  have ps: "perform (Step n) s =
      (snd (advance ?k s))\<lparr>calls := (calls s)[n := fst (advance ?k s)]\<rparr>"
    by (rule perform_Step [OF assms(3)])
  from assms(4) obtain c cr key secret where k: "?k = AwaitDeleteOne i c url cr key secret"
    by (cases ?k) simp_all
  have fl: "in_flight i ?k" by (simp add: k)
  have q: "length (filter (in_flight i) (calls s)) \<le> 1"
    using assms(1) by (simp add: inflight_def)
  have d: "deleted i url s = (if inserting i url ?k then 1 else 0)"
    "deleted i url (perform (Step n) s) = (if inserting i url (fst (advance ?k s)) then 1 else 0)"
    unfolding deleted_def ps
    using count_at_only [OF q assms(3) fl, of "inserting i url"] inserting_in_flight
    by auto
  have "count_id i (users s url) \<le> 1"
    using assms(2) by simp
  then show ?thesis
    unfolding d(2)
    using assms(5) by (auto simp: ps k deleteOne_def count_id_simps)
qed

lemma checkUser_users:
  "users (snd (snd (checkUser j c s))) =
     (case authDb s of
        Pending \<Rightarrow> users s
      | Fulfilled url \<Rightarrow>
          if connect_ok s url \<and> read_credentials s j = None \<and> delete_ok s
          then (users s)(url := delete_first j (users s url) @
                 (if insert_ok s
                  then [\<lparr>user_key = tokens s (drawn s),
                         user_secret = bcrypt_hash s (tokens s (Suc (drawn s))),
                         user_id = j, last_ip = [], scope = ''write_root'',
                         refresh_token = tokens s (drawn s) @ tokens s (Suc (Suc (drawn s)))\<rparr>]
                  else []))
          else users s)"
  by (simp add: call_defs Let_def split: promise.splits stored.splits option.splits)

lemma checkUser_creates_one:
  assumes "count_id i (users s url) \<le> 1" and "authDb s = Fulfilled url" and "connect_ok s url"
    and "delete_ok s" and "insert_ok s" and "read_credentials s i = None"
  shows "count_id i (users (snd (snd (checkUser i c s))) url) = 1"
  using assms by (auto simp: checkUser_users count_id_simps)

lemma bootstrapped_eq:
  "bootstrapped =
     \<lparr>certPrivate = Some ''PRIVATE KEY'', certPublic = Some ''PUBLIC KEY'',
      ready = Fulfilled (), authDb = Fulfilled (Some ''mongodb://auth''),
      files = (\<lambda>p. Missing)(AuthPublicPem := Holds ''PUBLIC KEY'',
                AuthPrivatePem := Holds ''PRIVATE KEY'', GitIgnore := Holds ''*.*''),
      credentials_json = Holds [''auth_core'' \<mapsto> \<lparr>user_key = ''k'', user_secret = ''kk''\<rparr>],
      write_ok = (\<lambda>p. True), connect_ok = (\<lambda>url. url = Some ''mongodb://auth''),
      delete_ok = True, insert_ok = True,
      users = (\<lambda>url. [])(Some ''mongodb://auth'' :=
                [\<lparr>user_key = ''k'', user_secret = ''$2a$10$kk'', user_id = ''auth_core'',
                  last_ip = [], scope = ''write_root'', refresh_token = ''kkkk''\<rparr>]),
      opened = [Some ''mongodb://auth''],
      keypair = (''PRIVATE KEY'', ''PUBLIC KEY''),
      tokens = (\<lambda>n. replicate (Suc n) CHR ''k''), drawn = 3,
      bcrypt_hash = (\<lambda>t. ''$2a$10$'' @ rev t), calls = []\<rparr>"
  by (simp add: bootstrapped_def key_defs world_defs call_defs Let_def truthy_def js_or_def
      numeral_3_eq_3)

subsection \<open>An entry of the cache file and the calls in flight\<close>












subsection \<open>The database target\<close>















subsection \<open>Key files and readiness\<close>

lemma verify_keys_ready:
  assumes "ready s = Fulfilled ()" and "t = ''api'' \<or> t = ''auth''"
  shows "verify t i c (run es s) =
      (Resolved, set_local ''certPrivate'' (certPrivate s) (set_local ''certPublic'' (certPublic s) c),
       run es s)"
  using assms by (auto simp: verify_def verifyUser_def verifyKeys_def run_frame)

lemma verify_not_ready:
  assumes "ready s = Pending"
  shows "verify t i c (run es s) = (Waiting Ready, c, run es s)"
  using assms by (simp add: verify_def run_frame)

text \<open>checkRSAKeys, case by case.\<close>

lemma checkRSAKeys_loaded:
  assumes "files s AuthPrivatePem = Holds priv" and "files s AuthPublicPem = Holds pub"
  shows "checkRSAKeys s =
           (Resolved, s\<lparr>certPrivate := Some priv, certPublic := Some pub, ready := Fulfilled ()\<rparr>)"
  using assms by (simp add: key_defs Let_def)

lemma load_keys_fails:
  assumes "\<not> (readable (files s AuthPrivatePem) \<and> readable (files s AuthPublicPem))"
  shows "fst (load_keys s) = False \<and> files (snd (load_keys s)) = files s \<and>
         write_ok (snd (load_keys s)) = write_ok s \<and> keypair (snd (load_keys s)) = keypair s \<and>
         ready (snd (load_keys s)) = ready s"
  using assms
  by (auto simp: load_keys_def fileExists_def readFile_def readable_def Let_def split: stored.splits)

lemma generate_keys_fails:
  assumes "\<not> (write_ok s AuthPublicPem \<and> write_ok s AuthPrivatePem \<and> write_ok s GitIgnore)"
  shows "\<exists>p. fst (generate_keys s) = Some (FsError p) \<and> \<not> write_ok s p"
    and "ready (snd (generate_keys s)) = ready s"
    and "certPrivate (snd (generate_keys s)) = Some (fst (keypair s))"
    and "certPublic (snd (generate_keys s)) = Some (snd (keypair s))"
  using assms by (auto simp: generate_keys_def writeFile_def Let_def)

lemma constructor_loaded:
  assumes "files w AuthPrivatePem = Holds priv" and "files w AuthPublicPem = Holds pub"
  shows "constructor w =
           (new_promises w)\<lparr>certPrivate := Some priv, certPublic := Some pub, ready := Fulfilled ()\<rparr>"
  using assms by (simp add: constructor_def checkRSAKeys_loaded new_promises_def)

lemma checkRSAKeys_generated:
  assumes "\<not> (readable (files s AuthPrivatePem) \<and> readable (files s AuthPublicPem))"
    and "write_ok s AuthPublicPem" and "write_ok s AuthPrivatePem" and "write_ok s GitIgnore"
  shows "checkRSAKeys s =
           (Resolved,
            s\<lparr>certPrivate := Some (fst (keypair s)), certPublic := Some (snd (keypair s)),
              files := (files s)(AuthPublicPem := Holds (snd (keypair s)),
                          AuthPrivatePem := Holds (fst (keypair s)),
                          GitIgnore := Holds ''*.*''),
              ready := Fulfilled ()\<rparr>)"
  using assms
  by (auto simp: key_defs readable_def Let_def split: stored.splits)

lemma checkRSAKeys_failed:
  assumes "\<not> (readable (files s AuthPrivatePem) \<and> readable (files s AuthPublicPem))"
    and "\<not> (write_ok s AuthPublicPem \<and> write_ok s AuthPrivatePem \<and> write_ok s GitIgnore)"
  shows "\<exists>p. fst (checkRSAKeys s) = Rejected (FsError p) \<and> \<not> write_ok s p"
    and "ready (snd (checkRSAKeys s)) = ready s"
    and "certPrivate (snd (checkRSAKeys s)) = Some (fst (keypair s))"
    and "certPublic (snd (checkRSAKeys s)) = Some (snd (keypair s))"
proof -
  obtain s1 where l: "load_keys s = (False, s1)" "files s1 = files s" "write_ok s1 = write_ok s"
    "keypair s1 = keypair s" "ready s1 = ready s"
    using load_keys_fails [OF assms(1)] by (cases "load_keys s") auto
  have w: "\<not> (write_ok s1 AuthPublicPem \<and> write_ok s1 AuthPrivatePem \<and> write_ok s1 GitIgnore)"
    using assms(2) l(3) by simp
  from generate_keys_fails [OF w] obtain p where
    g: "fst (generate_keys s1) = Some (FsError p)" "\<not> write_ok s1 p"
       "ready (snd (generate_keys s1)) = ready s1"
       "certPrivate (snd (generate_keys s1)) = Some (fst (keypair s1))"
       "certPublic (snd (generate_keys s1)) = Some (snd (keypair s1))"
    by blast
  obtain s2 where g2: "generate_keys s1 = (Some (FsError p), s2)"
    using g(1) by (cases "generate_keys s1") auto
  have c: "checkRSAKeys s = (Rejected (FsError p), s2)"
    by (simp add: checkRSAKeys_def l(1) g2)
  show "\<exists>p. fst (checkRSAKeys s) = Rejected (FsError p) \<and> \<not> write_ok s p"
    using c g(2) l(3) by auto
  show "ready (snd (checkRSAKeys s)) = ready s"
    using c g(3) g2 l(5) by simp
  show "certPrivate (snd (checkRSAKeys s)) = Some (fst (keypair s))"
    using c g(4) g2 l(4) by simp
  show "certPublic (snd (checkRSAKeys s)) = Some (snd (keypair s))"
    using c g(5) g2 l(4) by simp
qed

lemma new_promises_world:
  "files (new_promises w) = files w \<and> write_ok (new_promises w) = write_ok w \<and>
   keypair (new_promises w) = keypair w \<and> ready (new_promises w) = Pending"
  by (simp add: new_promises_def)

lemma constructor_generated:
  assumes "\<not> (readable (files w AuthPrivatePem) \<and> readable (files w AuthPublicPem))"
    and "write_ok w AuthPublicPem \<and> write_ok w AuthPrivatePem \<and> write_ok w GitIgnore"
  shows "constructor w =
           (new_promises w)
             \<lparr>certPrivate := Some (fst (keypair w)), certPublic := Some (snd (keypair w)),
              files := (files w)(AuthPublicPem := Holds (snd (keypair w)),
                          AuthPrivatePem := Holds (fst (keypair w)),
                          GitIgnore := Holds ''*.*''),
              ready := Fulfilled ()\<rparr>"
proof -
  have "checkRSAKeys (new_promises w) =
           (Resolved,
            (new_promises w)\<lparr>certPrivate := Some (fst (keypair (new_promises w))),
              certPublic := Some (snd (keypair (new_promises w))),
              files := (files (new_promises w))(AuthPublicPem := Holds (snd (keypair (new_promises w))),
                          AuthPrivatePem := Holds (fst (keypair (new_promises w))),
                          GitIgnore := Holds ''*.*''),
              ready := Fulfilled ()\<rparr>)"
    by (rule checkRSAKeys_generated) (use assms in \<open>simp_all add: new_promises_world\<close>)
  then show ?thesis
    by (simp add: constructor_def new_promises_world)
qed

lemma constructor_failed:
  assumes "\<not> (readable (files w AuthPrivatePem) \<and> readable (files w AuthPublicPem))"
    and "\<not> (write_ok w AuthPublicPem \<and> write_ok w AuthPrivatePem \<and> write_ok w GitIgnore)"
  shows "ready (constructor w) = Pending"
    and "\<exists>p. fst (checkRSAKeys (new_promises w)) = Rejected (FsError p) \<and> \<not> write_ok w p"
    and "certPrivate (constructor w) = Some (fst (keypair w))"
    and "certPublic (constructor w) = Some (snd (keypair w))"
proof -
  have a: "\<not> (readable (files (new_promises w) AuthPrivatePem) \<and>
               readable (files (new_promises w) AuthPublicPem))"
    and b: "\<not> (write_ok (new_promises w) AuthPublicPem \<and> write_ok (new_promises w) AuthPrivatePem \<and>
                write_ok (new_promises w) GitIgnore)"
    using assms by (simp_all add: new_promises_world)
  show "ready (constructor w) = Pending"
    using checkRSAKeys_failed(2) [OF a b] by (simp add: constructor_def new_promises_world)
  show "\<exists>p. fst (checkRSAKeys (new_promises w)) = Rejected (FsError p) \<and> \<not> write_ok w p"
    using checkRSAKeys_failed(1) [OF a b] by (simp add: new_promises_world)
  show "certPrivate (constructor w) = Some (fst (keypair w))"
    using checkRSAKeys_failed(3) [OF a b] by (simp add: constructor_def new_promises_world)
  show "certPublic (constructor w) = Some (snd (keypair w))"
    using checkRSAKeys_failed(4) [OF a b] by (simp add: constructor_def new_promises_world)
qed

lemma readable_Holds: "readable f = (\<exists>t. f = Holds t)"
  by (cases f) (simp_all add: readable_def)

subsection \<open>The example states\<close>



lemma bootstrapped_facts:
  "count_id ''jobs_core'' (users bootstrapped (Some ''mongodb://auth'')) \<le> 1"
  "inflight ''jobs_core'' bootstrapped = 0"
  "deleted ''jobs_core'' (Some ''mongodb://auth'') bootstrapped = 0"
  "authDb bootstrapped = Fulfilled (Some ''mongodb://auth'')"
  "connect_ok bootstrapped (Some ''mongodb://auth'')"
  "delete_ok bootstrapped" "insert_ok bootstrapped"
  "read_credentials bootstrapped ''jobs_core'' = None"
  "ready bootstrapped = Fulfilled ()"
  by code_simp+

lemma second_run_facts:
  "exclusive ''jobs_core'' second_run bootstrapped"
  "exclusive ''jobs_core'' second_run (snd (snd (checkUser ''jobs_core'' plain_config bootstrapped)))"
  "deleted ''jobs_core'' (Some ''mongodb://auth'')
     (history second_run (snd (snd (checkUser ''jobs_core'' plain_config bootstrapped)))) = 0"
  by code_simp+

lemma recreate_facts:
  "inflight ''jobs_core''
     (run recreate (happen DeleteCache
        (snd (snd (checkUser ''jobs_core'' plain_config bootstrapped))))) \<le> 1"
  "count_id ''jobs_core''
     (users (run recreate (happen DeleteCache
        (snd (snd (checkUser ''jobs_core'' plain_config bootstrapped))))) (Some ''mongodb://auth'')) = 1"
  "deleted ''jobs_core'' (Some ''mongodb://auth'')
     (run recreate (happen DeleteCache
        (snd (snd (checkUser ''jobs_core'' plain_config bootstrapped))))) = 0"
  "0 < length (calls (run recreate (happen DeleteCache
        (snd (snd (checkUser ''jobs_core'' plain_config bootstrapped))))))"
  "deleting ''jobs_core'' (Some ''mongodb://auth'')
     (calls (run recreate (happen DeleteCache
        (snd (snd (checkUser ''jobs_core'' plain_config bootstrapped))))) ! 0)"
  "delete_ok (run recreate (happen DeleteCache
        (snd (snd (checkUser ''jobs_core'' plain_config bootstrapped)))))"
  "count_id ''jobs_core''
     (users (perform (Step 0) (run recreate (happen DeleteCache
        (snd (snd (checkUser ''jobs_core'' plain_config bootstrapped)))))) (Some ''mongodb://auth'')) = 0"
  by code_simp+




section \<open>Claims about verify, verifyKeys and verifyUser\<close>

text \<open>
  C10. If \<^verbatim>\<open>config.provided.userSecret\<close> is set (a non-empty string) when \<^verbatim>\<open>verify\<close> is
  called for a \<^verbatim>\<open>core\<close> node, \<^verbatim>\<open>checkUser\<close> is not run: the call never waits on the
  database target, the whole state stays as it was (the users collections, the cache
  file, the connections, the tokens drawn, \<open>authDb\<close>) and so does the configuration
  (no \<^verbatim>\<open>userKey\<close> or \<^verbatim>\<open>userSecret\<close> is written into \<^verbatim>\<open>config.local\<close>). The call resolves as
  soon as the keys are ready, and waits on \<open>ready\<close> until then.
\<close>

theorem verify_override_bypass:
  "truthy (provided config ''userSecret'') \<Longrightarrow>
     verify ''core'' id' config s =
       (if ready s = Pending then Waiting Ready else Resolved, config, s)"
  by (simp add: verify_def verifyUser_def verifyKeys_def split: promise.splits)

theorem verify_override_bypass_witness:
  "truthy (provided (node_config (Some ''s3cret'') None) ''userSecret'') \<and>
   verify ''core'' ''jobs_core'' (node_config (Some ''s3cret'') None) (constructor fresh_world) =
     (Resolved, node_config (Some ''s3cret'') None, constructor fresh_world)"
  using verify_override_bypass [of "node_config (Some ''s3cret'') None" "''jobs_core''"
      "constructor fresh_world"]
  by (simp add: truthy_def node_config_def fresh_world_def key_defs Let_def)

text \<open>
  C9. For every node of type \<^verbatim>\<open>api\<close> or \<^verbatim>\<open>auth\<close>, \<^verbatim>\<open>verify\<close> copies the keys of the
  \<^verbatim>\<open>Auth\<close> object into \<^verbatim>\<open>config.local.certPublic\<close> and \<^verbatim>\<open>config.local.certPrivate\<close>. Once
  \<open>ready\<close> is fulfilled in a state \<open>s\<close>, a call made after any events of the process
  resolves with the keys of \<open>s\<close> and changes nothing else, so any two such nodes receive
  the same two strings.
\<close>

theorem verify_copies_shared_keys:
  assumes "ready s = Fulfilled ()"
    and "type1 = ''api'' \<or> type1 = ''auth''"
    and "type2 = ''api'' \<or> type2 = ''auth''"
  shows "verify type1 id1 config1 (run es1 s) =
           (Resolved,
            set_local ''certPrivate'' (certPrivate s) (set_local ''certPublic'' (certPublic s) config1),
            run es1 s) \<and>
         local (fst (snd (verify type2 id2 config2 (run es2 s)))) ''certPublic'' =
           local (fst (snd (verify type1 id1 config1 (run es1 s)))) ''certPublic'' \<and>
         local (fst (snd (verify type2 id2 config2 (run es2 s)))) ''certPrivate'' =
           local (fst (snd (verify type1 id1 config1 (run es1 s)))) ''certPrivate''"
  by (simp add: verify_keys_ready [OF assms(1,2)] verify_keys_ready [OF assms(1,3)] set_local_def)

theorem verify_copies_shared_keys_witness:
  "ready (constructor fresh_world) = Fulfilled () \<and>
   verify ''api'' ''api_node'' plain_config (run [] (constructor fresh_world)) =
     (Resolved,
      set_local ''certPrivate'' (Some ''PRIVATE KEY'')
        (set_local ''certPublic'' (Some ''PUBLIC KEY'') plain_config),
      constructor fresh_world) \<and>
   local (fst (snd (verify ''auth'' ''auth_node'' plain_config
       (run [Verify ''core'' ''auth_core'' auth_core_config] (constructor fresh_world)))))
     ''certPublic'' = Some ''PUBLIC KEY''"
  using verify_copies_shared_keys [of "constructor fresh_world" "''api''" "''auth''"
      "''api_node''" plain_config "[]" "''auth_node''" plain_config
      "[Verify ''core'' ''auth_core'' auth_core_config]"]
  by (simp add: key_defs fresh_world_def set_local_def Let_def)

section \<open>Claims about checkUser\<close>

text \<open>
  C5. On the creation path (the database target resolved, the connection opened, no entry
  for the id in the cache file, \<^verbatim>\<open>deleteOne\<close> succeeded) the users collection at the target
  becomes the old one without its first record of that id, followed, when the insert
  succeeds, by one record whose scope is \<^verbatim>\<open>write_root\<close>, whose \<^verbatim>\<open>last_ip\<close> is empty, whose
  refresh token is the user key followed by another random token, and whose secret field
  is the hash of the fresh secret. The secret itself goes to the cache file (when the file
  can be written) and to \<^verbatim>\<open>config.local\<close>, and to no collection.
\<close>

theorem create_user_record:
  assumes "authDb s = Fulfilled url" and "connect_ok s url"
    and "read_credentials s id' = None" and "delete_ok s"
  shows "users (snd (snd (checkUser id' config s))) =
           (users s)(url := delete_first id' (users s url) @
              (if insert_ok s
               then [\<lparr>user_key = tokens s (drawn s),
                      user_secret = bcrypt_hash s (tokens s (Suc (drawn s))),
                      user_id = id', last_ip = [], scope = ''write_root'',
                      refresh_token = tokens s (drawn s) @ tokens s (Suc (Suc (drawn s)))\<rparr>]
               else [])) \<and>
         credentials_json (snd (snd (checkUser id' config s))) =
           (if write_ok s CredentialsJson
            then Holds ((read_credentials s)(id' \<mapsto>
                   \<lparr>user_key = tokens s (drawn s), user_secret = tokens s (Suc (drawn s))\<rparr>))
            else credentials_json s) \<and>
         fst (checkUser id' config s) =
           (if write_ok s CredentialsJson then Resolved else Rejected (FsError CredentialsJson)) \<and>
         fst (snd (checkUser id' config s)) =
           (if write_ok s CredentialsJson
            then set_local ''userSecret'' (Some (tokens s (Suc (drawn s))))
                   (set_local ''userKey'' (Some (tokens s (drawn s))) config)
            else config)"
  using assms
  by (simp add: call_defs Let_def split: stored.splits)

theorem create_user_record_witness:
  "authDb bootstrapped = Fulfilled (Some ''mongodb://auth'') \<and>
   connect_ok bootstrapped (Some ''mongodb://auth'') \<and>
   read_credentials bootstrapped ''jobs_core'' = None \<and> delete_ok bootstrapped \<and>
   users (snd (snd (checkUser ''jobs_core'' plain_config bootstrapped))) (Some ''mongodb://auth'') =
     [\<lparr>user_key = ''k'', user_secret = ''$2a$10$kk'', user_id = ''auth_core'', last_ip = [],
       scope = ''write_root'', refresh_token = ''kkkk''\<rparr>,
      \<lparr>user_key = ''kkkk'', user_secret = ''$2a$10$kkkkk'', user_id = ''jobs_core'', last_ip = [],
       scope = ''write_root'', refresh_token = ''kkkkkkkkkk''\<rparr>] \<and>
   read_credentials (snd (snd (checkUser ''jobs_core'' plain_config bootstrapped))) ''jobs_core'' =
     Some \<lparr>user_key = ''kkkk'', user_secret = ''kkkkk''\<rparr>"
  using create_user_record [of bootstrapped "Some ''mongodb://auth''" "''jobs_core''" plain_config]
  by (simp add: bootstrapped_eq read_credentials_def eval_nat_numeral)

text \<open>
  C2, as amended. For every node id with an entry in the cache file, \<^verbatim>\<open>checkUser\<close> leaves
  the users collections and the cache file as they were and draws no token. It still
  waits for the database target and opens a connection to it first: with the connection
  open it resolves with the cached pair in \<^verbatim>\<open>config.local\<close>, having changed nothing but
  the list of open connections; when the connection fails it is rejected and the cached
  pair is not handed out.
\<close>

theorem cache_hit:
  assumes "credentials_json s = Holds doc" and "doc id' = Some c"
  shows "users (snd (snd (checkUser id' config s))) = users s \<and>
         credentials_json (snd (snd (checkUser id' config s))) = credentials_json s \<and>
         drawn (snd (snd (checkUser id' config s))) = drawn s \<and>
         checkUser id' config s =
           (case authDb s of
              Pending \<Rightarrow> (Waiting AuthDb, config, s)
            | Fulfilled url \<Rightarrow>
                if connect_ok s url
                then (Resolved,
                      set_local ''userSecret'' (Some (user_secret c))
                        (set_local ''userKey'' (Some (user_key c)) config),
                      s\<lparr>opened := opened s @ [url]\<rparr>)
                else (Rejected ConnectError, config, s))"
  using assms
  by (simp add: call_defs Let_def split: promise.splits)

theorem cache_hit_witness:
  "read_credentials bootstrapped ''auth_core'' = Some \<lparr>user_key = ''k'', user_secret = ''kk''\<rparr> \<and>
   checkUser ''auth_core'' auth_core_config bootstrapped =
     (Resolved,
      set_local ''userSecret'' (Some ''kk'') (set_local ''userKey'' (Some ''k'') auth_core_config),
      bootstrapped\<lparr>opened := opened bootstrapped @ [Some ''mongodb://auth'']\<rparr>)"
  using cache_hit [of bootstrapped "[''auth_core'' \<mapsto> \<lparr>user_key = ''k'', user_secret = ''kk''\<rparr>]"
      "''auth_core''" "\<lparr>user_key = ''k'', user_secret = ''kk''\<rparr>" auth_core_config]
  by (simp add: bootstrapped_eq read_credentials_def)

text \<open>
  C2 as stated fails: after a restart with \<^verbatim>\<open>auth_core\<close> in the cache file and the database
  down, \<^verbatim>\<open>checkUser\<close> for \<^verbatim>\<open>auth_core\<close> is rejected with the connection error, and the
  configuration does not receive the cached pair.
\<close>

theorem cache_hit_counterexample:
  "read_credentials (resolveDb (Some ''mongodb://auth'') (constructor database_down_world))
       ''auth_core'' = Some \<lparr>user_key = ''KEY'', user_secret = ''SECRET''\<rparr> \<and>
   checkUser ''auth_core'' auth_core_config
       (resolveDb (Some ''mongodb://auth'') (constructor database_down_world)) =
     (Rejected ConnectError, auth_core_config,
      resolveDb (Some ''mongodb://auth'') (constructor database_down_world)) \<and>
   verify ''core'' ''auth_core'' auth_core_config (constructor database_down_world) =
     (Rejected ConnectError, auth_core_config,
      resolveDb (Some ''mongodb://auth'') (constructor database_down_world))"
  by (simp add: key_defs world_defs call_defs Let_def truthy_def js_or_def)

text \<open>
  C1. The code at the failing input: the database accepts the connection and the delete
  and refuses the insert. \<^verbatim>\<open>verify\<close> resolves, the fresh pair is in \<^verbatim>\<open>config.local\<close> and in
  the cache file, and the users collection holds no record.
\<close>

theorem insert_failure_resolves:
  "fst (verify ''core'' ''auth_core'' auth_core_config (constructor insert_failing_world)) =
     Resolved \<and>
   local (fst (snd (verify ''core'' ''auth_core'' auth_core_config
      (constructor insert_failing_world)))) ''userKey'' = Some ''k'' \<and>
   local (fst (snd (verify ''core'' ''auth_core'' auth_core_config
      (constructor insert_failing_world)))) ''userSecret'' = Some ''kk'' \<and>
   read_credentials (snd (snd (verify ''core'' ''auth_core'' auth_core_config
      (constructor insert_failing_world)))) ''auth_core'' =
     Some \<lparr>user_key = ''k'', user_secret = ''kk''\<rparr> \<and>
   users (snd (snd (verify ''core'' ''auth_core'' auth_core_config
      (constructor insert_failing_world)))) (Some ''mongodb://auth'') = []"
  by (simp add: key_defs world_defs call_defs Let_def truthy_def js_or_def)

text \<open>
  C3. The loader's constraint on a node id (\<open>exclusive\<close>): at most one call for the id is in
  flight at any time, and the process is not restarted during such a call; calls for other
  ids interleave with it in any order. Under this constraint the records of the id in a
  users collection, counted together with the calls that have deleted its record and not
  yet inserted their own, number at most one through any history of runs, restarts and
  deletions of the cache file: the collection never holds two records of the id. The
  \<^verbatim>\<open>deleteOne\<close> of a creation path, once completed, leaves no record and one insert to come;
  from a state with one record, or with one insert to come, there is exactly one through
  any later history when inserts succeed. In particular, when \<^verbatim>\<open>checkUser\<close> runs the
  creation path for an id (no entry for it in the cache file, at a first bootstrap or after
  the file was deleted) and the database operations succeed, the collection holds exactly
  one record of that id, and after any later history exactly one still: a later bootstrap
  of the same id either is served from the cache file or deletes that record and inserts
  its own.
\<close>

theorem one_record_per_id:
  "(exclusive i h s \<and> count_id i (users s url) + deleted i url s \<le> 1 \<longrightarrow>
      count_id i (users (history h s) url) + deleted i url (history h s) \<le> 1) \<and>
   (inflight i s \<le> 1 \<and> count_id i (users s url) + deleted i url s \<le> 1 \<and>
    n < length (calls s) \<and> deleting i url (calls s ! n) \<and> delete_ok s \<longrightarrow>
      count_id i (users (perform (Step n) s) url) + deleted i url (perform (Step n) s) = 1) \<and>
   (exclusive i h s \<and> insert_ok s \<and> count_id i (users s url) + deleted i url s = 1 \<longrightarrow>
      count_id i (users (history h s) url) + deleted i url (history h s) = 1) \<and>
   (count_id i (users s url) \<le> 1 \<and> inflight i s = 0 \<and>
    authDb s = Fulfilled url \<and> connect_ok s url \<and> delete_ok s \<and> insert_ok s \<and>
    read_credentials s i = None \<and> exclusive i h (snd (snd (checkUser i config s))) \<longrightarrow>
      count_id i (users (snd (snd (checkUser i config s))) url) = 1 \<and>
      count_id i (users (history h (snd (snd (checkUser i config s)))) url) +
        deleted i url (history h (snd (snd (checkUser i config s)))) = 1)"
proof (intro conjI impI)
  assume "exclusive i h s \<and> count_id i (users s url) + deleted i url s \<le> 1"
  then show "count_id i (users (history h s) url) + deleted i url (history h s) \<le> 1"
    using history_counts [of i h s url] by blast
next
  assume "inflight i s \<le> 1 \<and> count_id i (users s url) + deleted i url s \<le> 1 \<and>
    n < length (calls s) \<and> deleting i url (calls s ! n) \<and> delete_ok s"
  then show "count_id i (users (perform (Step n) s) url) + deleted i url (perform (Step n) s) = 1"
    using step_delete_counts [of i s url n] by blast
next
  assume "exclusive i h s \<and> insert_ok s \<and> count_id i (users s url) + deleted i url s = 1"
  then show "count_id i (users (history h s) url) + deleted i url (history h s) = 1"
    using history_counts [of i h s url] by blast
next
  let ?s' = "snd (snd (checkUser i config s))"
  assume ok: "count_id i (users s url) \<le> 1 \<and> inflight i s = 0 \<and>
    authDb s = Fulfilled url \<and> connect_ok s url \<and> delete_ok s \<and> insert_ok s \<and>
    read_credentials s i = None \<and> exclusive i h ?s'"
  have d: "deleted i url s = 0"
    using deleted_le_inflight [of i url s] ok by simp
  show one: "count_id i (users ?s' url) = 1"
    using ok by (simp add: checkUser_creates_one)
  have "deleted i url ?s' = 0" "insert_ok ?s'"
    using d ok by (simp_all add: deleted_def checkUser_frame)
  with one history_counts [of i h ?s' url] ok
  show "count_id i (users (history h ?s') url) + deleted i url (history h ?s') = 1"
    by simp
qed

theorem one_record_per_id_witness:
  "exclusive ''jobs_core'' second_run bootstrapped \<and>
   count_id ''jobs_core'' (users bootstrapped (Some ''mongodb://auth'')) +
     deleted ''jobs_core'' (Some ''mongodb://auth'') bootstrapped \<le> 1 \<and>
   count_id ''jobs_core'' (users (history second_run bootstrapped) (Some ''mongodb://auth'')) +
     deleted ''jobs_core'' (Some ''mongodb://auth'') (history second_run bootstrapped) \<le> 1 \<and>
   inflight ''jobs_core'' bootstrapped = 0 \<and>
   authDb bootstrapped = Fulfilled (Some ''mongodb://auth'') \<and>
   connect_ok bootstrapped (Some ''mongodb://auth'') \<and> delete_ok bootstrapped \<and>
   insert_ok bootstrapped \<and> read_credentials bootstrapped ''jobs_core'' = None \<and>
   exclusive ''jobs_core'' second_run
     (snd (snd (checkUser ''jobs_core'' plain_config bootstrapped))) \<and>
   count_id ''jobs_core''
     (users (snd (snd (checkUser ''jobs_core'' plain_config bootstrapped)))
        (Some ''mongodb://auth'')) = 1 \<and>
   count_id ''jobs_core''
     (users (history second_run (snd (snd (checkUser ''jobs_core'' plain_config bootstrapped))))
        (Some ''mongodb://auth'')) = 1 \<and>
   deleting ''jobs_core'' (Some ''mongodb://auth'')
     (calls (run recreate (happen DeleteCache
        (snd (snd (checkUser ''jobs_core'' plain_config bootstrapped))))) ! 0) \<and>
   count_id ''jobs_core''
     (users (perform (Step 0) (run recreate (happen DeleteCache
        (snd (snd (checkUser ''jobs_core'' plain_config bootstrapped))))))
        (Some ''mongodb://auth'')) = 0 \<and>
   deleted ''jobs_core'' (Some ''mongodb://auth'')
     (perform (Step 0) (run recreate (happen DeleteCache
        (snd (snd (checkUser ''jobs_core'' plain_config bootstrapped)))))) = 1"
  using one_record_per_id [of "''jobs_core''" second_run bootstrapped "Some ''mongodb://auth''"
      0 plain_config]
    one_record_per_id [of "''jobs_core''" "[]"
      "run recreate (happen DeleteCache
         (snd (snd (checkUser ''jobs_core'' plain_config bootstrapped))))"
      "Some ''mongodb://auth''" 0 plain_config]
    bootstrapped_facts second_run_facts recreate_facts
  by simp




section \<open>Claims about the keys and the two shared promises\<close>

text \<open>
  C6. When the constructor finds \<^verbatim>\<open>auth.private.pem\<close> or \<^verbatim>\<open>auth.public.pem\<close> missing or
  unreadable, the keys in memory are a freshly generated pair, and when the three writes
  are permitted both files hold that pair, \<^verbatim>\<open>.gitignore\<close> holds \<^verbatim>\<open>*.*\<close> and \<open>ready\<close> is
  fulfilled. Whenever \<open>ready\<close> is fulfilled, both keys are in memory and equal to what
  the two files hold (loaded, or generated and written), and a call of \<^verbatim>\<open>verify\<close> for an
  \<^verbatim>\<open>api\<close> or \<^verbatim>\<open>auth\<close> node made at any later point receives exactly that pair; while
  \<open>ready\<close> is pending every call of \<^verbatim>\<open>verify\<close> waits and receives nothing.
\<close>

theorem key_readiness:
  "(\<not> (readable (files w AuthPrivatePem) \<and> readable (files w AuthPublicPem)) \<longrightarrow>
      certPrivate (constructor w) = Some (fst (keypair w)) \<and>
      certPublic (constructor w) = Some (snd (keypair w)) \<and>
      (write_ok w AuthPublicPem \<and> write_ok w AuthPrivatePem \<and> write_ok w GitIgnore \<longrightarrow>
         ready (constructor w) = Fulfilled () \<and>
         files (constructor w) AuthPublicPem = Holds (snd (keypair w)) \<and>
         files (constructor w) AuthPrivatePem = Holds (fst (keypair w)) \<and>
         files (constructor w) GitIgnore = Holds ''*.*'')) \<and>
   (ready (constructor w) = Fulfilled () \<longrightarrow>
      (\<exists>priv pub.
         certPrivate (constructor w) = Some priv \<and> certPublic (constructor w) = Some pub \<and>
         files (constructor w) AuthPrivatePem = Holds priv \<and>
         files (constructor w) AuthPublicPem = Holds pub \<and>
         (type = ''api'' \<or> type = ''auth'' \<longrightarrow>
            verify type id' config (run es (constructor w)) =
              (Resolved,
               set_local ''certPrivate'' (Some priv) (set_local ''certPublic'' (Some pub) config),
               run es (constructor w))))) \<and>
   (ready (constructor w) = Pending \<longrightarrow>
      verify type id' config (run es (constructor w)) =
        (Waiting Ready, config, run es (constructor w)))"
proof (intro conjI impI)
  assume a: "\<not> (readable (files w AuthPrivatePem) \<and> readable (files w AuthPublicPem))"
  show "certPrivate (constructor w) = Some (fst (keypair w))"
    using a constructor_generated [OF a] constructor_failed(3) [OF a]
    by (cases "write_ok w AuthPublicPem \<and> write_ok w AuthPrivatePem \<and> write_ok w GitIgnore") simp_all
  show "certPublic (constructor w) = Some (snd (keypair w))"
    using a constructor_generated [OF a] constructor_failed(4) [OF a]
    by (cases "write_ok w AuthPublicPem \<and> write_ok w AuthPrivatePem \<and> write_ok w GitIgnore") simp_all
  assume b: "write_ok w AuthPublicPem \<and> write_ok w AuthPrivatePem \<and> write_ok w GitIgnore"
  note g = constructor_generated [OF a b]
  show "ready (constructor w) = Fulfilled ()" by (simp add: g)
  show "files (constructor w) AuthPublicPem = Holds (snd (keypair w))" by (simp add: g)
  show "files (constructor w) AuthPrivatePem = Holds (fst (keypair w))" by (simp add: g)
  show "files (constructor w) GitIgnore = Holds ''*.*''" by (simp add: g)
next
  assume r: "ready (constructor w) = Fulfilled ()"
  have "\<exists>priv pub.
         certPrivate (constructor w) = Some priv \<and> certPublic (constructor w) = Some pub \<and>
         files (constructor w) AuthPrivatePem = Holds priv \<and>
         files (constructor w) AuthPublicPem = Holds pub"
  proof (cases "readable (files w AuthPrivatePem) \<and> readable (files w AuthPublicPem)")
    case True
    then obtain priv pub where "files w AuthPrivatePem = Holds priv" "files w AuthPublicPem = Holds pub"
      by (auto simp: readable_Holds)
    from constructor_loaded [OF this] show ?thesis
      using \<open>files w AuthPrivatePem = Holds priv\<close> \<open>files w AuthPublicPem = Holds pub\<close>
      by (simp add: new_promises_def)
  next
    case False
    have "write_ok w AuthPublicPem \<and> write_ok w AuthPrivatePem \<and> write_ok w GitIgnore"
      using constructor_failed(1) [OF False] r by auto
    from constructor_generated [OF False this] show ?thesis by simp
  qed
  then obtain priv pub where k:
     "certPrivate (constructor w) = Some priv" "certPublic (constructor w) = Some pub"
     "files (constructor w) AuthPrivatePem = Holds priv"
     "files (constructor w) AuthPublicPem = Holds pub"
    by blast
  have "type = ''api'' \<or> type = ''auth'' \<longrightarrow>
            verify type id' config (run es (constructor w)) =
              (Resolved,
               set_local ''certPrivate'' (Some priv) (set_local ''certPublic'' (Some pub) config),
               run es (constructor w))"
    using verify_keys_ready [OF r, of type id' config es] k(1,2) by simp
  with k show "\<exists>priv pub.
         certPrivate (constructor w) = Some priv \<and> certPublic (constructor w) = Some pub \<and>
         files (constructor w) AuthPrivatePem = Holds priv \<and>
         files (constructor w) AuthPublicPem = Holds pub \<and>
         (type = ''api'' \<or> type = ''auth'' \<longrightarrow>
            verify type id' config (run es (constructor w)) =
              (Resolved,
               set_local ''certPrivate'' (Some priv) (set_local ''certPublic'' (Some pub) config),
               run es (constructor w)))"
    by blast
next
  assume "ready (constructor w) = Pending"
  then show "verify type id' config (run es (constructor w)) =
        (Waiting Ready, config, run es (constructor w))"
    by (rule verify_not_ready)
qed

theorem key_readiness_witness:
  "\<not> (readable (files fresh_world AuthPrivatePem) \<and> readable (files fresh_world AuthPublicPem)) \<and>
   write_ok fresh_world AuthPublicPem \<and> write_ok fresh_world AuthPrivatePem \<and>
   write_ok fresh_world GitIgnore \<and>
   ready (constructor fresh_world) = Fulfilled () \<and>
   files (constructor fresh_world) AuthPublicPem = Holds ''PUBLIC KEY'' \<and>
   files (constructor fresh_world) AuthPrivatePem = Holds ''PRIVATE KEY'' \<and>
   files (constructor fresh_world) GitIgnore = Holds ''*.*'' \<and>
   fst (snd (verify ''api'' ''api_node'' plain_config (run [] (constructor fresh_world)))) =
     set_local ''certPrivate'' (Some ''PRIVATE KEY'')
       (set_local ''certPublic'' (Some ''PUBLIC KEY'') plain_config)"
  using key_readiness [of fresh_world "''api''" "''api_node''" plain_config "[]"]
  by (simp add: fresh_world_def readable_def) (auto simp: verify_def)

text \<open>
  C7. The code at the failing input: no key files, and the certificate directory cannot be
  written. The read failure is taken as absence and a pair is generated; the write of
  \<^verbatim>\<open>auth.public.pem\<close> fails and rejects the promise of \<^verbatim>\<open>checkRSAKeys\<close> with that error.
  The constructor attaches nothing to that promise and keeps only \<^verbatim>\<open>resolve\<close>, so the
  error is not delivered to \<^verbatim>\<open>verify\<close>: \<open>ready\<close> is left pending and a call of \<^verbatim>\<open>verify\<close>
  stands at \<^verbatim>\<open>await this.ready\<close>, not rejected. The awaited \<^verbatim>\<open>writeFile\<close> of
  \<^verbatim>\<open>checkUser\<close>, by contrast, rejects \<^verbatim>\<open>verify\<close> with its error when it fails. With every
  write permitted, the missing key files raise no error and \<open>ready\<close> is fulfilled.
\<close>

theorem keypair_write_failure_dropped:
  "fst (checkRSAKeys (new_promises read_only_world)) = Rejected (FsError AuthPublicPem) \<and>
   ready (constructor read_only_world) = Pending \<and>
   verify ''api'' ''api_node'' plain_config (constructor read_only_world) =
     (Waiting Ready, plain_config, constructor read_only_world) \<and>
   fst (verify ''core'' ''auth_core'' auth_core_config (constructor cache_read_only_world)) =
     Rejected (FsError CredentialsJson) \<and>
   fst (checkRSAKeys (new_promises fresh_world)) = Resolved \<and>
   ready (constructor fresh_world) = Fulfilled ()"
  by (simp add: key_defs world_defs cache_read_only_world_def call_defs Let_def truthy_def js_or_def)




end
